theory Spec2Isabelle
  imports Complex_Main "HOL-Library.Product_Lexorder"
begin

section \<open>Strings\<close>

text \<open>
  A Python \<^verbatim>\<open>str\<close> is a sequence of Unicode code points, so a string is a list of
  code points (natural numbers); \<open>ascii\<close> reads an ASCII literal.
\<close>

type_synonym ustr = "nat list"

definition ascii :: "string \<Rightarrow> ustr" where
  "ascii s = map of_char s"

section \<open>fuzzy\_index.py: ngrams\<close>

text \<open>
  Python's \<^verbatim>\<open>zip(*lists)\<close>: the tuples of the heads, as long as no list is exhausted;
  no tuple at all when there is no list.
\<close>

function zip_star :: "'a list list \<Rightarrow> 'a list list" where
  "zip_star xss =
     (if xss = [] \<or> [] \<in> set xss then [] else map hd xss # zip_star (map tl xss))"
  by pat_completeness auto
termination
proof (relation "measure (\<lambda>xss. length (hd xss))")
  show "wf (measure (\<lambda>xss::'a list list. length (hd xss)))" by simp
next
  fix xss :: "'a list list"
  assume a: "\<not> (xss = [] \<or> [] \<in> set xss)"
  then obtain ys yss where xss: "xss = ys # yss" by (cases xss) auto
  with a have "ys \<noteq> []" by auto
  then show "(map tl xss, xss) \<in> measure (\<lambda>xss. length (hd xss))"
    using xss by (cases ys) auto
qed

declare zip_star.simps [simp del]

text \<open>\<^verbatim>\<open>''.join(ngram)\<close> on a tuple of one-character strings.\<close>

definition join :: "nat list \<Rightarrow> ustr" where
  "join ngram = concat (map (\<lambda>c. [c]) ngram)"

text \<open>
  \<^verbatim>\<open>
  def ngrams(string, n=3):
      string = ' ' + string + ' '  # pad names for ngrams...
      ngrams = zip(*[string[i:] for i in range(n)])
      return [''.join(ngram) for ngram in ngrams]
  \<close>
\<close>

definition ngrams :: "ustr \<Rightarrow> nat \<Rightarrow> ustr list" where
  "ngrams string n =
     (let padded = [32] @ string @ [32];
          tuples = zip_star (map (\<lambda>i. drop i padded) [0..<n])
      in map join tuples)"

text \<open>The default \<^verbatim>\<open>n=3\<close>.\<close>

definition trigrams :: "ustr \<Rightarrow> ustr list" where
  "trigrams string = ngrams string 3"

text \<open>The windows of three consecutive elements, used to describe what \<open>zip_star\<close> yields.\<close>

fun windows3 :: "'a list \<Rightarrow> 'a list list" where
  "windows3 (a # b # c # r) = [a, b, c] # windows3 (b # c # r)"
| "windows3 _ = []"

section \<open>fuzzy\_index.py: FuzzyIndex.encode\_string\<close>

text \<open>
  \<^verbatim>\<open>
  def encode_string(text):
      if text is None:
          return None
      return unidecode(re.sub(" +", "", re.sub(r'[^\w ]+', '', text)).strip().lower())
  \<close>
  On ASCII code points the character classes of \<^verbatim>\<open>re\<close>, \<^verbatim>\<open>str.strip\<close>,
  \<^verbatim>\<open>str.lower\<close> and \<^verbatim>\<open>unidecode\<close> are written out. Beyond ASCII they are
  the tables of Python's Unicode database and of the Unidecode library, which are not
  part of the repository: they are parameters of the model, one entry per code point.
\<close>

record unicode_tables =
  uni_word :: "nat \<Rightarrow> bool"
  uni_space :: "nat \<Rightarrow> bool"
  uni_lower :: "nat \<Rightarrow> ustr"
  uni_decode :: "nat \<Rightarrow> ustr"

text \<open>\<^verbatim>\<open>\w\<close>: ASCII letters, digits and the underscore, and the table beyond ASCII.\<close>

definition is_word :: "unicode_tables \<Rightarrow> nat \<Rightarrow> bool" where
  "is_word db c =
     (if c < 128
      then (48 \<le> c \<and> c \<le> 57) \<or> (65 \<le> c \<and> c \<le> 90) \<or> c = 95 \<or> (97 \<le> c \<and> c \<le> 122)
      else uni_word db c)"

text \<open>\<^verbatim>\<open>str.isspace\<close>: tab to carriage return, the separators 28 to 31 and the space.\<close>

definition is_space :: "unicode_tables \<Rightarrow> nat \<Rightarrow> bool" where
  "is_space db c =
     (if c < 128 then (9 \<le> c \<and> c \<le> 13) \<or> (28 \<le> c \<and> c \<le> 32) else uni_space db c)"

definition lower_char :: "unicode_tables \<Rightarrow> nat \<Rightarrow> ustr" where
  "lower_char db c =
     (if c < 128 then [if 65 \<le> c \<and> c \<le> 90 then c + 32 else c] else uni_lower db c)"

definition unidecode_char :: "unicode_tables \<Rightarrow> nat \<Rightarrow> ustr" where
  "unidecode_char db c = (if c < 128 then [c] else uni_decode db c)"

text \<open>\<^verbatim>\<open>re.sub(r'[^\w ]+', '', text)\<close>: every run of characters that are neither word
  characters nor the space is deleted.\<close>

definition re_sub_nonword :: "unicode_tables \<Rightarrow> ustr \<Rightarrow> ustr" where
  "re_sub_nonword db text = filter (\<lambda>c. is_word db c \<or> c = 32) text"

text \<open>\<^verbatim>\<open>re.sub(" +", "", s)\<close>: every run of spaces is deleted.\<close>

definition re_sub_spaces :: "ustr \<Rightarrow> ustr" where
  "re_sub_spaces s = filter (\<lambda>c. c \<noteq> 32) s"

definition strip :: "unicode_tables \<Rightarrow> ustr \<Rightarrow> ustr" where
  "strip db s = rev (dropWhile (is_space db) (rev (dropWhile (is_space db) s)))"

definition lower :: "unicode_tables \<Rightarrow> ustr \<Rightarrow> ustr" where
  "lower db s = concat (map (lower_char db) s)"

definition unidecode :: "unicode_tables \<Rightarrow> ustr \<Rightarrow> ustr" where
  "unidecode db s = concat (map (unidecode_char db) s)"

definition encode_string :: "unicode_tables \<Rightarrow> ustr option \<Rightarrow> ustr option" where
  "encode_string db text =
     (case text of
        None \<Rightarrow> None
      | Some t \<Rightarrow> Some (unidecode db (lower db (strip db (re_sub_spaces (re_sub_nonword db t))))))"

text \<open>
  A fragment of the tables, enough to run the normalizer on the ideograph U+5317: it is a
  word character without case, and Unidecode's documentation gives its transliteration
  as \<^verbatim>\<open>'Bei '\<close> (capitalised, with a trailing space). Every other code point beyond
  ASCII is left out (no word character, transliterated to nothing).
\<close>

definition unidecode_doc :: unicode_tables where
  "unidecode_doc =
     \<lparr>uni_word = (\<lambda>c. c = 21271), uni_space = (\<lambda>c. False), uni_lower = (\<lambda>c. [c]),
      uni_decode = (\<lambda>c. if c = 21271 then [66, 101, 105, 32] else [])\<rparr>"

text \<open>The characters a normalized ASCII text is made of: \<^verbatim>\<open>[a-z0-9_]\<close>.\<close>

definition norm_char :: "nat \<Rightarrow> bool" where
  "norm_char c = ((48 \<le> c \<and> c \<le> 57) \<or> c = 95 \<or> (97 \<le> c \<and> c \<le> 122))"

definition normal_form :: "ustr option \<Rightarrow> bool" where
  "normal_form text = (case text of None \<Rightarrow> True | Some t \<Rightarrow> list_all norm_char t)"

definition is_ascii :: "ustr option \<Rightarrow> bool" where
  "is_ascii text = (case text of None \<Rightarrow> True | Some t \<Rightarrow> list_all (\<lambda>c. c < 128) t)"

section \<open>fuzzy\_index.py: FuzzyIndex\<close>

text \<open>The exceptions the modelled code can raise.\<close>

datatype py_error = TypeError | AttributeError | IndexError | ValueError

text \<open>
  One search result of FuzzyIndex.search:
  \<^verbatim>\<open>{"confidence": fabs(conf), "id": index, "text": query_string}\<close>.
  Confidences are modelled as real numbers.
\<close>

record 't hit =
  hit_confidence :: real
  hit_id :: nat
  hit_text :: 't

text \<open>
  The object: \<^verbatim>\<open>__init__\<close> copies the module's \<^verbatim>\<open>have_nmslib\<close> flag and sets
  \<^verbatim>\<open>vectorizer\<close> and \<^verbatim>\<open>index\<close> to None.
\<close>

record ('v, 'i) FuzzyIndex =
  have_nmslib :: bool
  vectorizer :: "'v option"
  index :: "'i option"

definition FuzzyIndex_init :: "bool \<Rightarrow> ('v, 'i) FuzzyIndex" where
  "FuzzyIndex_init nmslib_imported = \<lparr>have_nmslib = nmslib_imported, vectorizer = None, index = None\<rparr>"

text \<open>
  The libraries behind the index (scikit-learn's TfidfVectorizer and nmslib) are outside
  the repository and are parameters: fitting the vectorizer on the lookup strings (which
  may raise), creating the nearest-neighbour index from the fitted vectorizer and the
  ids, and the k-nearest-neighbour query, which returns the array of ids and the array of
  signed distances.
\<close>

record ('v, 'i) backend =
  fit_transform :: "ustr list \<Rightarrow> py_error + 'v"
  create_index :: "'v \<Rightarrow> nat list \<Rightarrow> 'i"
  knn_query :: "'v \<Rightarrow> 'i \<Rightarrow> ustr \<Rightarrow> nat \<Rightarrow> nat list \<times> real list"

text \<open>
  \<^verbatim>\<open>
  def build(self, search_data):
      if not self.have_nmslib:
          return
      lookup_strings = []
      lookup_ids = []
      for value, lookup_id in search_data:
          lookup_strings.append(value)
          lookup_ids.append(lookup_id)
      self.vectorizer = TfidfVectorizer(min_df=1, analyzer=ngrams)
      lookup_matrix = self.vectorizer.fit_transform(lookup_strings)
      self.index = nmslib.init(...)
      self.index.addDataPointBatch(lookup_matrix, lookup_ids)
      self.index.createIndex()
  \<close>
  The result is the error raised, or the object after the call.
\<close>

definition FuzzyIndex_build ::
  "('v, 'i) backend \<Rightarrow> ('v, 'i) FuzzyIndex \<Rightarrow> (ustr \<times> nat) list \<Rightarrow> py_error + ('v, 'i) FuzzyIndex"
where
  "FuzzyIndex_build be self search_data =
     (if \<not> have_nmslib self then Inr self
      else
        let lookup_strings = map fst search_data;
            lookup_ids = map snd search_data
        in case fit_transform be lookup_strings of
             Inl e \<Rightarrow> Inl e
           | Inr v \<Rightarrow> Inr (self\<lparr>vectorizer := Some v, index := Some (create_index be v lookup_ids)\<rparr>))"

text \<open>
  \<^verbatim>\<open>
  def search(self, query_string):
      if not self.have_nmslib:
          logger.warning(...)
          return []
      query_matrix = self.vectorizer.transform([query_string])
      results = self.index.knnQueryBatch(query_matrix, k=3, num_threads=5)
      output = []
      for index, conf in zip(results[0][0], results[0][1]):
          output.append({"confidence": fabs(conf), "id": index, "text": query_string })
      return output
  \<close>
  A method call on None (the vectorizer or the index of an object that was never built)
  raises AttributeError.
\<close>

definition FuzzyIndex_search ::
  "('v, 'i) backend \<Rightarrow> ('v, 'i) FuzzyIndex \<Rightarrow> ustr \<Rightarrow> py_error + ustr hit list"
where
  "FuzzyIndex_search be self query_string =
     (if \<not> have_nmslib self then Inr []
      else case vectorizer self of
        None \<Rightarrow> Inl AttributeError
      | Some v \<Rightarrow>
         (case index self of
            None \<Rightarrow> Inl AttributeError
          | Some ix \<Rightarrow>
              let results = knn_query be v ix query_string 3
              in Inr (map (\<lambda>(i, conf). \<lparr>hit_confidence = \<bar>conf\<bar>, hit_id = i, hit_text = query_string\<rparr>)
                       (zip (fst results) (snd results)))))"

text \<open>
  The call \<^verbatim>\<open>index.search(query, **kwargs)\<close>: the method declares the one
  parameter \<^verbatim>\<open>query_string\<close>, which the positional argument binds, so every keyword
  argument is rejected with TypeError before the body runs. This is how
  search\_index.py calls it: \<^verbatim>\<open>search(recording_name, min_confidence=RECORDING_CONFIDENCE)\<close>.
\<close>

definition FuzzyIndex_search_call ::
  "('v, 'i) backend \<Rightarrow> ('v, 'i) FuzzyIndex \<Rightarrow> ustr \<Rightarrow> (string \<times> real) list \<Rightarrow> py_error + ustr hit list"
where
  "FuzzyIndex_search_call be self query_string kwargs =
     (if kwargs \<noteq> [] then Inl TypeError else FuzzyIndex_search be self query_string)"

text \<open>
  A small backend to run the code on: the fitted vectorizer is the list of lookup
  strings, the index is the list of ids, and a query returns every id with the signed
  distance \<open>- 1\<close> when its string is the query and \<open>- 1 / 5\<close> otherwise.
\<close>

definition toy_backend :: "(ustr list, nat list) backend" where
  "toy_backend =
     \<lparr>fit_transform = (\<lambda>strings. if strings = [] then Inl ValueError else Inr strings),
      create_index = (\<lambda>v ids. ids),
      knn_query = (\<lambda>v ix q k. (take k ix, take k (map (\<lambda>s. if s = q then - 1 else - 1 / 5) v)))\<rparr>"

section \<open>search\_index.py: MappingLookupSearch\<close>

definition RELEASE_CONFIDENCE :: real where
  "RELEASE_CONFIDENCE = 1 / 2"

definition RECORDING_CONFIDENCE :: real where
  "RECORDING_CONFIDENCE = 1 / 2"

text \<open>Python's truth value of an optional string: None and the empty string are false.\<close>

definition truthy :: "ustr option \<Rightarrow> bool" where
  "truthy s = (case s of None \<Rightarrow> False | Some t \<Rightarrow> t \<noteq> [])"

text \<open>
  A row of the Mapping table, as far as load\_artist reads it. A name can be NULL in the
  database, hence None.
\<close>

record row =
  row_recording_id :: int
  row_release_id :: int
  row_recording_name :: "ustr option"
  row_release_name :: "ustr option"
  row_score :: int

text \<open>The dictionaries that load\_artist builds, one record per shape.\<close>

record rec_ref =
  ref_id :: int
  ref_release_id :: int
  ref_score :: int

record rec_group =
  rg_text :: "ustr option"
  rg_id :: nat
  rg_recording_data :: "rec_ref list"

record rel_item =
  ri_id :: int
  ri_text :: "ustr option"
  ri_score :: int

record rel_group =
  lg_text :: "ustr option"
  lg_id :: nat
  lg_release_id_scores :: "(int \<times> int) list"

record 'idx entry =
  ad_recording_index :: 'idx
  ad_recording_data :: "rec_group list"
  ad_release_index :: 'idx
  ad_recording_releases :: "(int \<times> int list) list"
  ad_release_data :: "rel_group list"

text \<open>
  search\_index.py builds an index with \<^verbatim>\<open>FuzzyIndex().build(data, "text")\<close> and queries
  it with \<^verbatim>\<open>search(query, min_confidence=c)\<close>. The FuzzyIndex of fuzzy\_index.py
  declares neither the second argument of build nor min\_confidence, so the two operations
  as search\_index.py calls them are parameters of the model: build receives the text and
  the id of every dictionary of the list and returns the index or raises; search receives
  the index, the query and the threshold and returns the hits or raises.
\<close>

record 'idx index_api =
  ix_build :: "(ustr option \<times> nat) list \<Rightarrow> py_error + 'idx"
  ix_search :: "'idx \<Rightarrow> ustr option \<Rightarrow> real \<Rightarrow> py_error + ustr option hit list"

text \<open>
  The two operations as the FuzzyIndex of fuzzy\_index.py answers these calls: build
  declares the one parameter \<^verbatim>\<open>search_data\<close> and is called with two arguments, search
  is called with the keyword \<^verbatim>\<open>min_confidence\<close> (see \<open>FuzzyIndex_search_call\<close>); both
  calls raise TypeError when the arguments are bound.
\<close>

definition fuzzy_index_api :: "unit index_api" where
  "fuzzy_index_api =
     \<lparr>ix_build = (\<lambda>pairs. Inl TypeError), ix_search = (\<lambda>idx q min_confidence. Inl TypeError)\<rparr>"

text \<open>
  The object's state, as far as load\_artist and search use it: the cache
  \<^verbatim>\<open>self.artist_data\<close>, and the log of the queries sent to the row store
  (\<^verbatim>\<open>Mapping.select().where(Mapping.artist_credit_id == artist_credit_id)\<close>), which is
  what a call-counting stub of the row store would record.
\<close>

record 'idx lookup_state =
  artist_data :: "int \<rightharpoonup> 'idx entry"
  db_queries :: "int list"

definition MappingLookupSearch_init :: "'idx lookup_state" where
  "MappingLookupSearch_init = \<lparr>artist_data = Map.empty, db_queries = []\<rparr>"

text \<open>
  \<^verbatim>\<open>d[k].append(v)\<close> on a \<^verbatim>\<open>defaultdict(list)\<close>: dictionaries keep the order in which
  their keys were inserted, so the dictionary is a list of keys with their lists.
\<close>

fun dd_append :: "'k \<Rightarrow> 'v \<Rightarrow> ('k \<times> 'v list) list \<Rightarrow> ('k \<times> 'v list) list" where
  "dd_append k v [] = [(k, [v])]"
| "dd_append k v ((k', vs) # kvs) =
     (if k = k' then (k', vs @ [v]) # kvs else (k', vs) # dd_append k v kvs)"

text \<open>
  The first loop of load\_artist, one row at a time:
  \<^verbatim>\<open>
  for i, row in enumerate(data):
      encoded = FuzzyIndex.encode_string(row.recording_name)
      recording_ref[encoded].append({ "id": row.recording_id,
                                      "release_id": row.release_id,
                                      "score": row.score })
      recording_releases[row.recording_id].append(row.release_id)
      encoded = FuzzyIndex.encode_string(row.release_name)
      if encoded:
          release_data.append({ "id": row.release_id, "text": encoded, "score": row.score })
  \<close>
\<close>

record scan =
  sc_recording_ref :: "(ustr option \<times> rec_ref list) list"
  sc_recording_releases :: "(int \<times> int list) list"
  sc_release_data :: "rel_item list"

definition scan_row :: "unicode_tables \<Rightarrow> scan \<Rightarrow> row \<Rightarrow> scan" where
  "scan_row db sc r =
     (let encoded = encode_string db (row_recording_name r);
          recording_ref = dd_append encoded
             \<lparr>ref_id = row_recording_id r, ref_release_id = row_release_id r, ref_score = row_score r\<rparr>
             (sc_recording_ref sc);
          recording_releases = dd_append (row_recording_id r) (row_release_id r) (sc_recording_releases sc);
          encoded' = encode_string db (row_release_name r);
          release_data =
            (if truthy encoded'
             then sc_release_data sc @ [\<lparr>ri_id = row_release_id r, ri_text = encoded', ri_score = row_score r\<rparr>]
             else sc_release_data sc)
      in \<lparr>sc_recording_ref = recording_ref, sc_recording_releases = recording_releases,
          sc_release_data = release_data\<rparr>)"

definition scan_rows :: "unicode_tables \<Rightarrow> row list \<Rightarrow> scan" where
  "scan_rows db rows =
     foldl (scan_row db) \<lparr>sc_recording_ref = [], sc_recording_releases = [], sc_release_data = []\<rparr> rows"

text \<open>
  \<^verbatim>\<open>
  recording_data = []
  for i, text in enumerate(recording_ref):
      data = recording_ref[text]
      recording_data.append({ "text": text, "id": i, "recording_data": data })
  \<close>
\<close>

definition recording_groups :: "(ustr option \<times> rec_ref list) list \<Rightarrow> rec_group list" where
  "recording_groups recording_ref =
     map (\<lambda>(i, (text, data)). \<lparr>rg_text = text, rg_id = i, rg_recording_data = data\<rparr>)
       (enumerate 0 recording_ref)"

text \<open>
  \<^verbatim>\<open>
  release_ref = defaultdict(list)
  for release in release_data:
      release_ref[release["text"]].append((release["id"], release["score"]))
  release_data = []
  for i, text in enumerate(release_ref):
      release_data.append({ "text": text, "id": i, "release_id_scores": release_ref[text] })
  \<close>
\<close>

definition release_groups :: "rel_item list \<Rightarrow> rel_group list" where
  "release_groups release_data =
     (let release_ref = foldl (\<lambda>ref release. dd_append (ri_text release) (ri_id release, ri_score release) ref)
                          [] release_data
      in map (\<lambda>(i, (text, scores)). \<lparr>lg_text = text, lg_id = i, lg_release_id_scores = scores\<rparr>)
           (enumerate 0 release_ref))"

text \<open>
  load\_artist. The result is the error raised, or the value returned (None, or the
  entry), with the state after the call. A cached entry is returned without a query; on a
  miss the row store is queried once. None is returned, and nothing is stored, when there
  is no recording group (no row) or no release group. The recording index is built before
  the release groups are looked at.
\<close>

definition load_artist ::
  "'idx index_api \<Rightarrow> unicode_tables \<Rightarrow> (int \<Rightarrow> row list) \<Rightarrow> int \<Rightarrow> 'idx lookup_state
     \<Rightarrow> (py_error + 'idx entry option) \<times> 'idx lookup_state"
where
  "load_artist api db rows_for artist_credit_id st =
     (case artist_data st artist_credit_id of
        Some e \<Rightarrow> (Inr (Some e), st)
      | None \<Rightarrow>
         (let data = rows_for artist_credit_id;
              st1 = st\<lparr>db_queries := db_queries st @ [artist_credit_id]\<rparr>;
              sc = scan_rows db data;
              recording_data = recording_groups (sc_recording_ref sc);
              release_data = release_groups (sc_release_data sc)
          in if recording_data = [] then (Inr None, st1)
             else case ix_build api (map (\<lambda>g. (rg_text g, rg_id g)) recording_data) of
               Inl e \<Rightarrow> (Inl e, st1)
             | Inr recording_index \<Rightarrow>
                (if release_data = [] then (Inr None, st1)
                 else case ix_build api (map (\<lambda>g. (lg_text g, lg_id g)) release_data) of
                   Inl e \<Rightarrow> (Inl e, st1)
                 | Inr release_index \<Rightarrow>
                    (let entry = \<lparr>ad_recording_index = recording_index,
                                  ad_recording_data = recording_data,
                                  ad_release_index = release_index,
                                  ad_recording_releases = sc_recording_releases sc,
                                  ad_release_data = release_data\<rparr>
                     in (Inr (Some entry),
                         st1\<lparr>artist_data := (artist_data st1)(artist_credit_id \<mapsto> entry)\<rparr>)))))"

subsection \<open>search\<close>

record request =
  req_id :: nat
  req_artist_ids :: "int list"
  req_artist_name :: "ustr option"
  req_release_name :: "ustr option"
  req_recording_name :: "ustr option"

text \<open>The expanded recording and release candidates, and the combined hits.\<close>

record rec_result =
  rr_text :: "ustr option"
  rr_confidence :: real
  rr_id :: int
  rr_score :: int
  rr_release_id :: int

record rel_result =
  lr_text :: "ustr option"
  lr_confidence :: real
  lr_id :: int
  lr_score :: int

record combined =
  c_recording_id :: int
  c_recording_text :: "ustr option"
  c_recording_conf :: real
  c_score :: int
  c_release_id :: int
  c_release_name :: "ustr option"
  c_release_conf :: real
  c_confidence :: real

text \<open>A result tuple: (release\_id, recording\_id, confidence, request id).\<close>

type_synonym result = "int \<times> int \<times> real \<times> nat"

text \<open>
  \<^verbatim>\<open>
  for result in rec_results:
      data = artist_data["recording_data"][result["id"]]
      for d in data["recording_data"]:
          exp_results.append({ "text": result["text"], "confidence": result["confidence"],
                               "id": d["id"], "score": d["score"], "release_id": d["release_id"]})
  \<close>
  An id outside the list raises IndexError.
\<close>

fun expand_recordings :: "rec_group list \<Rightarrow> ustr option hit list \<Rightarrow> py_error + rec_result list" where
  "expand_recordings rd [] = Inr []"
| "expand_recordings rd (result # results) =
     (if hit_id result < length rd
      then (case expand_recordings rd results of
              Inl e \<Rightarrow> Inl e
            | Inr rest \<Rightarrow>
                Inr (map (\<lambda>d. \<lparr>rr_text = hit_text result, rr_confidence = hit_confidence result,
                                rr_id = ref_id d, rr_score = ref_score d,
                                rr_release_id = ref_release_id d\<rparr>)
                         (rg_recording_data (rd ! hit_id result)) @ rest))
      else Inl IndexError)"

fun expand_releases :: "rel_group list \<Rightarrow> ustr option hit list \<Rightarrow> py_error + rel_result list" where
  "expand_releases ld [] = Inr []"
| "expand_releases ld (result # results) =
     (if hit_id result < length ld
      then (case expand_releases ld results of
              Inl e \<Rightarrow> Inl e
            | Inr rest \<Rightarrow>
                Inr (map (\<lambda>(release_id, score).
                            \<lparr>lr_text = hit_text result, lr_confidence = hit_confidence result,
                             lr_id = release_id, lr_score = score\<rparr>)
                         (lg_release_id_scores (ld ! hit_id result)) @ rest))
      else Inl IndexError)"

text \<open>
  The recording stage: the index query, the expansion and
  \<^verbatim>\<open>sorted(exp_results, key=lambda r: (-r["confidence"], r["score"]))\<close>, a stable sort
  on pairs compared lexicographically.
\<close>

definition recording_stage ::
  "'idx index_api \<Rightarrow> 'idx entry \<Rightarrow> ustr option \<Rightarrow> py_error + rec_result list" where
  "recording_stage api ad recording_name =
     (case ix_search api (ad_recording_index ad) recording_name RECORDING_CONFIDENCE of
        Inl e \<Rightarrow> Inl e
      | Inr rec_results \<Rightarrow>
         (case expand_recordings (ad_recording_data ad) rec_results of
            Inl e \<Rightarrow> Inl e
          | Inr exp_results \<Rightarrow> Inr (sort_key (\<lambda>r. (- rr_confidence r, rr_score r)) exp_results)))"

definition release_stage ::
  "'idx index_api \<Rightarrow> 'idx entry \<Rightarrow> ustr option \<Rightarrow> py_error + rel_result list" where
  "release_stage api ad release_name =
     (case ix_search api (ad_release_index ad) release_name RELEASE_CONFIDENCE of
        Inl e \<Rightarrow> Inl e
      | Inr rel_results \<Rightarrow>
         (case expand_releases (ad_release_data ad) rel_results of
            Inl e \<Rightarrow> Inl e
          | Inr exp_results \<Rightarrow> Inr (sort_key (\<lambda>r. (- lr_confidence r, lr_score r)) exp_results)))"

text \<open>
  \<^verbatim>\<open>
  hits = []
  for rec_res in rec_results[:3]:
      for rel_res in rel_results[:3]:
          if rec_res["id"] in artist_data["recording_releases"]:
              hits.append({ ..., "confidence": (rec_res["confidence"] + rel_res["confidence"])/2 })
  \<close>
\<close>

definition combine ::
  "(int \<times> int list) list \<Rightarrow> rec_result list \<Rightarrow> rel_result list \<Rightarrow> combined list" where
  "combine rec_rel rec_results rel_results =
     concat (map (\<lambda>rec_res.
        concat (map (\<lambda>rel_res.
           if rr_id rec_res \<in> set (map fst rec_rel)
           then [\<lparr>c_recording_id = rr_id rec_res,
                  c_recording_text = rr_text rec_res,
                  c_recording_conf = rr_confidence rec_res,
                  c_score = rr_score rec_res,
                  c_release_id = lr_id rel_res,
                  c_release_name = lr_text rel_res,
                  c_release_conf = lr_confidence rel_res,
                  c_confidence = (rr_confidence rec_res + lr_confidence rel_res) / 2\<rparr>]
           else [])
          (take 3 rel_results)))
       (take 3 rec_results))"

text \<open>The release stage and the combination, for a request with a release name.\<close>

definition combined_hits ::
  "'idx index_api \<Rightarrow> 'idx entry \<Rightarrow> rec_result list \<Rightarrow> ustr option \<Rightarrow> py_error + combined list" where
  "combined_hits api ad rec_results release_name =
     (case release_stage api ad release_name of
        Inl e \<Rightarrow> Inl e
      | Inr rel_results \<Rightarrow> Inr (combine (ad_recording_releases ad) rec_results rel_results))"

text \<open>
  The body of the loop over the candidate artists, once the artist's entry is loaded: it
  either goes on to the next artist (\<^verbatim>\<open>continue\<close>) or returns a list.
\<close>

datatype outcome = Continue | Return "result list"

definition search_artist ::
  "'idx index_api \<Rightarrow> nat \<Rightarrow> ustr option \<Rightarrow> ustr option \<Rightarrow> 'idx entry \<Rightarrow> py_error + outcome" where
  "search_artist api rid recording_name release_name ad =
     (case recording_stage api ad recording_name of
        Inl e \<Rightarrow> Inl e
      | Inr rec_results \<Rightarrow>
         (if \<not> truthy release_name
          then (if rec_results = [] then Inr Continue
                else Inr (Return (map (\<lambda>r. (rr_release_id r, rr_id r, rr_confidence r, rid))
                                    (take 3 rec_results))))
          else case combined_hits api ad rec_results release_name of
            Inl e \<Rightarrow> Inl e
          | Inr hits \<Rightarrow>
             (if hits = [] then Inr Continue
              else Inr (Return [(c_release_id (hd hits), c_recording_id (hd hits),
                                 c_confidence (hd hits), rid)]))))"

text \<open>
  The loop \<^verbatim>\<open>for artist_id in artist_ids\<close>. The value is the error raised or the value
  returned, where None is Python's None: the function has no return statement after the
  loop, so a loop that runs to its end returns None.
\<close>

fun search_loop ::
  "'idx index_api \<Rightarrow> unicode_tables \<Rightarrow> (int \<Rightarrow> row list) \<Rightarrow> nat \<Rightarrow> ustr option \<Rightarrow> ustr option
     \<Rightarrow> int list \<Rightarrow> 'idx lookup_state \<Rightarrow> (py_error + result list option) \<times> 'idx lookup_state"
where
  "search_loop api db rows_for rid recording_name release_name [] st = (Inr None, st)"
| "search_loop api db rows_for rid recording_name release_name (artist_id # artist_ids) st =
     (case load_artist api db rows_for artist_id st of
        (Inl e, st') \<Rightarrow> (Inl e, st')
      | (Inr None, st') \<Rightarrow> search_loop api db rows_for rid recording_name release_name artist_ids st'
      | (Inr (Some ad), st') \<Rightarrow>
         (case search_artist api rid recording_name release_name ad of
            Inl e \<Rightarrow> (Inl e, st')
          | Inr Continue \<Rightarrow> search_loop api db rows_for rid recording_name release_name artist_ids st'
          | Inr (Return res) \<Rightarrow> (Inr (Some res), st')))"

definition search ::
  "'idx index_api \<Rightarrow> unicode_tables \<Rightarrow> (int \<Rightarrow> row list) \<Rightarrow> request \<Rightarrow> 'idx lookup_state
     \<Rightarrow> (py_error + result list option) \<times> 'idx lookup_state"
where
  "search api db rows_for req st =
     (let artist_ids = req_artist_ids req;
          artist_name = encode_string db (req_artist_name req);
          release_name = encode_string db (req_release_name req);
          recording_name = encode_string db (req_recording_name req)
      in search_loop api db rows_for (req_id req) recording_name release_name artist_ids st)"


text \<open>
  An index to run the code on: the index is the list of texts and ids it was built from,
  and a query returns, of the first three entries, those whose confidence (1 for the
  query's own text, 3 / 5 otherwise) reaches the threshold.
\<close>

definition toy_api :: "(ustr option \<times> nat) list index_api" where
  "toy_api =
     \<lparr>ix_build = (\<lambda>pairs. Inr pairs),
      ix_search = (\<lambda>idx q min_confidence.
         Inr (filter (\<lambda>h. min_confidence \<le> hit_confidence h)
                (map (\<lambda>(t, i). \<lparr>hit_confidence = (if t = q then 1 else 3 / 5), hit_id = i, hit_text = q\<rparr>)
                   (take 3 idx))))\<rparr>"

text \<open>
  A row store to run the code on: artist 1 has two rows, artist 2 has two rows whose
  release names normalize to the empty text, and no other artist has rows. \<open>toy_entry\<close> is the
  entry that load\_artist builds for artist 1 over \<open>toy_api\<close>.
\<close>

definition toy_store :: "int \<Rightarrow> row list" where
  "toy_store a =
     (if a = 1 then
        [\<lparr>row_recording_id = 10, row_release_id = 20, row_recording_name = Some [87, 97, 114],
          row_release_name = Some [87, 97, 114, 33], row_score = 1\<rparr>,
         \<lparr>row_recording_id = 11, row_release_id = 21, row_recording_name = Some [80, 97, 120],
          row_release_name = Some [80], row_score = 2\<rparr>]
      else if a = 2 then
        [\<lparr>row_recording_id = 12, row_release_id = 22, row_recording_name = Some [87, 97, 114],
          row_release_name = Some [33, 33], row_score = 1\<rparr>,
         \<lparr>row_recording_id = 13, row_release_id = 23, row_recording_name = Some [63],
          row_release_name = Some [], row_score = 4\<rparr>]
      else [])"

definition toy_entry :: "(ustr option \<times> nat) list entry" where
  "toy_entry =
     \<lparr>ad_recording_index = [(Some [119, 97, 114], 0), (Some [112, 97, 120], 1)],
      ad_recording_data =
        [\<lparr>rg_text = Some [119, 97, 114], rg_id = 0,
          rg_recording_data = [\<lparr>ref_id = 10, ref_release_id = 20, ref_score = 1\<rparr>]\<rparr>,
         \<lparr>rg_text = Some [112, 97, 120], rg_id = 1,
          rg_recording_data = [\<lparr>ref_id = 11, ref_release_id = 21, ref_score = 2\<rparr>]\<rparr>],
      ad_release_index = [(Some [119, 97, 114], 0), (Some [112], 1)],
      ad_recording_releases = [(10, [20]), (11, [21])],
      ad_release_data =
        [\<lparr>lg_text = Some [119, 97, 114], lg_id = 0, lg_release_id_scores = [(20, 1)]\<rparr>,
         \<lparr>lg_text = Some [112], lg_id = 1, lg_release_id_scores = [(21, 2)]\<rparr>]\<rparr>"

text \<open>The dictionary \<open>m\<close> has the value \<open>v\<close> in the list under the key \<open>k\<close>.\<close>

definition has_ref :: "('k \<times> 'v list) list \<Rightarrow> 'k \<Rightarrow> 'v \<Rightarrow> bool" where
  "has_ref m k v = (\<exists>vs. (k, vs) \<in> set m \<and> v \<in> set vs)"

text \<open>
  A request for the recording \<^verbatim>\<open>Pax\<close> on the release \<^verbatim>\<open>zzz\<close>, with the candidate
  artists 7 and 1, and what the recording stage and the release stage yield for it on
  \<open>toy_entry\<close>.
\<close>

definition toy_request :: request where
  "toy_request =
     \<lparr>req_id = 5, req_artist_ids = [7, 1], req_artist_name = Some [88],
      req_release_name = Some [122, 122, 122], req_recording_name = Some [80, 97, 120]\<rparr>"

definition toy_rec_results :: "rec_result list" where
  "toy_rec_results =
     [\<lparr>rr_text = Some [112, 97, 120], rr_confidence = 1, rr_id = 11, rr_score = 2, rr_release_id = 21\<rparr>,
      \<lparr>rr_text = Some [112, 97, 120], rr_confidence = 3 / 5, rr_id = 10, rr_score = 1, rr_release_id = 20\<rparr>]"

definition toy_rel_results :: "rel_result list" where
  "toy_rel_results =
     [\<lparr>lr_text = Some [122, 122, 122], lr_confidence = 3 / 5, lr_id = 20, lr_score = 1\<rparr>,
      \<lparr>lr_text = Some [122, 122, 122], lr_confidence = 3 / 5, lr_id = 21, lr_score = 2\<rparr>]"

section \<open>search\_process.py: mapping\_lookup\_process\<close>

text \<open>
  A message of the input queue: a dictionary, of which the worker tests whether it has
  the key \<^verbatim>\<open>exit\<close>, and which it otherwise hands to search as the request.
\<close>

record message =
  msg_exit :: bool
  msg_req :: request

text \<open>
  Where the worker is once the messages put into the queue are consumed: blocked in
  \<^verbatim>\<open>in_q.get()\<close> (Ready), returned (Stopped), or ended by an exception of search.
\<close>

datatype status = Ready | Stopped | Failed py_error

text \<open>
  What the worker does, in order: it takes a message from the queue, and it writes the
  result of a request into \<^verbatim>\<open>out_d\<close>. Between taking a request and writing its
  result the worker is processing that request.
\<close>

datatype event = Received message | Wrote nat

record 'idx worker =
  w_ms :: "'idx lookup_state"
  w_out_d :: "nat \<rightharpoonup> (result list option \<times> string \<times> nat)"
  w_status :: status
  w_trace :: "event list"

text \<open>
  \<^verbatim>\<open>
  while True:
      req = in_q.get()
      if "exit" in req:
          return
      t0 = monotonic()
      ret = ms.search(req)
      out_d[req["id"]] = (ret, "%.3fms" % ((monotonic() - t0) * 1000), req["id"])
  \<close>
  The loop runs over the messages that are ever put into the queue; \<open>elapsed\<close> gives the
  formatted time that the clock measures for a request.
\<close>

fun worker_loop ::
  "'idx index_api \<Rightarrow> unicode_tables \<Rightarrow> (int \<Rightarrow> row list) \<Rightarrow> (request \<Rightarrow> string)
     \<Rightarrow> message list \<Rightarrow> 'idx worker \<Rightarrow> 'idx worker"
where
  "worker_loop api db rows_for elapsed [] w = w"
| "worker_loop api db rows_for elapsed (req # in_q) w =
     (if msg_exit req
      then w\<lparr>w_status := Stopped, w_trace := w_trace w @ [Received req]\<rparr>
      else case search api db rows_for (msg_req req) (w_ms w) of
        (Inl e, ms) \<Rightarrow> w\<lparr>w_ms := ms, w_status := Failed e, w_trace := w_trace w @ [Received req]\<rparr>
      | (Inr ret, ms) \<Rightarrow>
          worker_loop api db rows_for elapsed in_q
            (w\<lparr>w_ms := ms,
               w_out_d := (w_out_d w)(req_id (msg_req req) \<mapsto>
                             (ret, elapsed (msg_req req), req_id (msg_req req))),
               w_trace := w_trace w @ [Received req, Wrote (req_id (msg_req req))]\<rparr>))"

text \<open>
  \<^verbatim>\<open>def mapping_lookup_process(in_q, out_q, out_d, index_dir, num_shards, shard)\<close>: the
  worker makes its own MappingLookupSearch and enters the loop.
\<close>

definition mapping_lookup_process ::
  "'idx index_api \<Rightarrow> unicode_tables \<Rightarrow> (int \<Rightarrow> row list) \<Rightarrow> (request \<Rightarrow> string)
     \<Rightarrow> message list \<Rightarrow> (nat \<rightharpoonup> (result list option \<times> string \<times> nat)) \<Rightarrow> 'idx worker"
where
  "mapping_lookup_process api db rows_for elapsed in_q out_d =
     worker_loop api db rows_for elapsed in_q
       \<lparr>w_ms = MappingLookupSearch_init, w_out_d = out_d, w_status = Ready, w_trace = []\<rparr>"

text \<open>
  Ready and Processing alternate: every request that is received is followed by the
  writing of its own result before the next message is received; only the last message
  received (the exit message, or a request on which search raised) has no result.
\<close>

fun alternating :: "event list \<Rightarrow> bool" where
  "alternating [] = True"
| "alternating [Received m] = True"
| "alternating (Received m # Wrote i # evs) =
     (\<not> msg_exit m \<and> i = req_id (msg_req m) \<and> alternating evs)"
| "alternating _ = False"

text \<open>The exit message \<open>e\<close> reaches a worker: one that is waiting for a message stops.\<close>

definition halt :: "message \<Rightarrow> 'idx worker \<Rightarrow> 'idx worker" where
  "halt e w =
     (if w_status w = Ready then w\<lparr>w_status := Stopped, w_trace := w_trace w @ [Received e]\<rparr> else w)"

text \<open>
  The requests answered one at a time in the order of the queue, in the words of the
  specification: each request with the value that search returns for it on the state
  that the requests before it have left, up to the first exit message or the first
  request on which search raises.
\<close>

fun served ::
  "'idx index_api \<Rightarrow> unicode_tables \<Rightarrow> (int \<Rightarrow> row list) \<Rightarrow> 'idx lookup_state \<Rightarrow> message list
     \<Rightarrow> (message \<times> result list option) list"
where
  "served api db rows_for st [] = []"
| "served api db rows_for st (m # ms) =
     (if msg_exit m then []
      else case search api db rows_for (msg_req m) st of
        (Inl e, st') \<Rightarrow> []
      | (Inr ret, st') \<Rightarrow> (m, ret) # served api db rows_for st' ms)"

text \<open>
  Messages to run the worker on: the exit message, the request \<open>toy_request\<close>, and a
  second request, for the recording \<^verbatim>\<open>War\<close> of artist 1 with no release name.
\<close>

definition toy_exit :: message where
  "toy_exit = \<lparr>msg_exit = True, msg_req = toy_request\<rparr>"

definition toy_message :: message where
  "toy_message = \<lparr>msg_exit = False, msg_req = toy_request\<rparr>"

definition toy_request2 :: request where
  "toy_request2 =
     \<lparr>req_id = 6, req_artist_ids = [1], req_artist_name = Some [88],
      req_release_name = None, req_recording_name = Some [87, 97, 114]\<rparr>"

definition toy_message2 :: message where
  "toy_message2 = \<lparr>msg_exit = False, msg_req = toy_request2\<rparr>"

section \<open>Properties of the trigram generator\<close>

lemma zip_star_Nil [simp]: "zip_star [] = []"
  by (simp add: zip_star.simps)

lemma zip_star_exhausted: "[] \<in> set xss \<Longrightarrow> zip_star xss = []"
  by (simp add: zip_star.simps)

lemma zip_star_step:
  "xss \<noteq> [] \<Longrightarrow> [] \<notin> set xss \<Longrightarrow> zip_star xss = map hd xss # zip_star (map tl xss)"
  by (subst zip_star.simps) simp

lemma zip_star_windows3: "zip_star [xs, drop 1 xs, drop 2 xs] = windows3 xs"
proof (induction xs rule: windows3.induct)
  case (1 a b c r)
  have "zip_star [a # b # c # r, b # c # r, c # r] = [a, b, c] # zip_star [b # c # r, c # r, r]"
    by (subst zip_star_step) simp_all
  with 1 show ?case by simp
qed (simp_all add: zip_star_exhausted)

lemma windows3_map: "windows3 xs = map (\<lambda>i. take 3 (drop i xs)) [0..<length xs - 2]"
proof (induction xs rule: windows3.induct)
  case (1 a b c r)
  have "[0..<Suc (length r)] = 0 # map Suc [0..<length r]"
    by (simp add: upt_conv_Cons map_Suc_upt del: upt_Suc)
  with 1 show ?case by (simp add: numeral_3_eq_3 del: upt_Suc)
qed simp_all

lemma join_id [simp]: "join ngram = ngram"
  by (induction ngram) (simp_all add: join_def)

lemma upt_3: "[0..<3] = [0, 1, 2]"
  by (simp add: numeral_3_eq_3 upt_rec)

text \<open>
  C8 (as amended). The trigram generator pads the text with one leading and one trailing
  space and slides a window of three characters over it: a text of \<open>n\<close> characters yields
  exactly \<open>n\<close> trigrams, the window starting at each of its positions. A one-character text
  still yields one trigram; the empty text yields none.
\<close>

theorem trigrams_windows:
  "trigrams s = map (\<lambda>i. take 3 (drop i ([32] @ s @ [32]))) [0..<length s]"
proof -
  define p where "p = [32] @ s @ [32]"
  have "map (\<lambda>i. drop i p) [0..<3] = [p, drop 1 p, drop 2 p]"
    by (simp add: upt_3)
  then have "ngrams s 3 = map join (zip_star [p, drop 1 p, drop 2 p])"
    by (simp only: ngrams_def Let_def p_def)
  also have "\<dots> = windows3 p"
    by (simp only: zip_star_windows3) (simp add: map_idI)
  also have "\<dots> = map (\<lambda>i. take 3 (drop i p)) [0..<length s]"
    by (simp add: windows3_map p_def)
  finally show ?thesis by (simp only: trigrams_def p_def)
qed

theorem trigrams_windows_witness:
  "trigrams [97] = [[32, 97, 32]] \<and> trigrams [97, 98] = [[32, 97, 98], [97, 98, 32]]"
  using trigrams_windows [of "[97]"] trigrams_windows [of "[97, 98]"]
  by (simp add: upt_rec)

text \<open>
  C8 as stated fails at the empty text, which is shorter than two characters: padded it
  has two characters, and no window of three fits.
\<close>

theorem trigrams_empty_counterexample:
  "length ([] :: ustr) < 2 \<and> trigrams [] = []"
  by (simp add: trigrams_def ngrams_def upt_3 zip_star_exhausted)

section \<open>Properties of the normalizer\<close>

lemma filter_all: "list_all P xs \<Longrightarrow> filter P xs = xs"
  by (induction xs) auto

lemma norm_char_word: "norm_char c \<Longrightarrow> is_word db c"
  by (auto simp: norm_char_def is_word_def)
lemma norm_char_not_space: "norm_char c \<Longrightarrow> \<not> is_space db c"
  by (auto simp: norm_char_def is_space_def)
lemma word_not_space: "c < 128 \<Longrightarrow> is_word db c \<Longrightarrow> \<not> is_space db c"
  by (auto simp: is_word_def is_space_def)

lemma strip_no_space: "list_all (\<lambda>c. \<not> is_space db c) s \<Longrightarrow> strip db s = s"
proof -
  assume a: "list_all (\<lambda>c. \<not> is_space db c) s"
  have d: "dropWhile (is_space db) xs = xs" if "list_all (\<lambda>c. \<not> is_space db c) xs" for xs
    using that by (cases xs) auto
  from a have "list_all (\<lambda>c. \<not> is_space db c) (rev s)" by (simp add: list_all_iff)
  with a show ?thesis by (simp add: strip_def d)
qed

lemma lower_ascii_word:
  "list_all (\<lambda>c. c < 128 \<and> is_word db c) s \<Longrightarrow> list_all norm_char (lower db s)"
  by (induction s) (auto simp: lower_def lower_char_def is_word_def norm_char_def)

lemma lower_norm: "list_all norm_char s \<Longrightarrow> lower db s = s"
  by (induction s) (auto simp: lower_def lower_char_def norm_char_def)

lemma unidecode_ascii: "list_all (\<lambda>c. c < 128) s \<Longrightarrow> unidecode db s = s"
  by (induction s) (auto simp: unidecode_def unidecode_char_def)

lemma norm_char_ascii: "norm_char c \<Longrightarrow> c < 128"
  by (auto simp: norm_char_def)

lemma encode_norm:
  assumes "list_all norm_char s"
  shows "encode_string db (Some s) = Some s"
proof -
  from assms have w: "list_all (\<lambda>c. is_word db c \<or> c = 32) s"
    and n: "list_all (\<lambda>c. c \<noteq> 32) s"
    and sp: "list_all (\<lambda>c. \<not> is_space db c) s"
    and a: "list_all (\<lambda>c. c < 128) s"
    by (auto simp: list_all_iff norm_char_word norm_char_not_space norm_char_ascii norm_char_def)
  show ?thesis
    by (simp add: encode_string_def re_sub_nonword_def re_sub_spaces_def
        filter_all [OF w] filter_all [OF n] strip_no_space [OF sp] lower_norm [OF assms]
        unidecode_ascii [OF a])
qed

lemma encode_ascii:
  assumes "list_all (\<lambda>c. c < 128) t"
  shows "\<exists>s. encode_string db (Some t) = Some s \<and> list_all norm_char s"
proof -
  let ?f = "re_sub_spaces (re_sub_nonword db t)"
  have f: "list_all (\<lambda>c. c < 128 \<and> is_word db c) ?f"
    using assms by (auto simp: list_all_iff re_sub_spaces_def re_sub_nonword_def)
  then have "list_all (\<lambda>c. \<not> is_space db c) ?f"
    by (auto simp: list_all_iff word_not_space)
  then have s: "strip db ?f = ?f" by (rule strip_no_space)
  have l: "list_all norm_char (lower db ?f)" using f by (rule lower_ascii_word)
  then have "list_all (\<lambda>c. c < 128) (lower db ?f)"
    by (auto simp: list_all_iff norm_char_ascii)
  then have "unidecode db (lower db ?f) = lower db ?f" by (rule unidecode_ascii)
  with s l show ?thesis by (simp add: encode_string_def)
qed

text \<open>
  C7 (as amended). The normalizer is idempotent on every text whose normalized form
  consists of lower-case ASCII letters, digits and underscores only, whatever the tables
  beyond ASCII are; every ASCII text (and the absent text) has such a normalized form.
\<close>

theorem encode_string_idempotent_normal:
  "(is_ascii t \<longrightarrow> normal_form (encode_string db t)) \<and>
   (normal_form (encode_string db t) \<longrightarrow>
      encode_string db (encode_string db t) = encode_string db t)"
proof (cases t)
  case None
  then show ?thesis by (simp add: encode_string_def normal_form_def)
next
  case (Some s)
  have "normal_form (encode_string db t)" if "is_ascii t"
  proof -
    from that Some have "list_all (\<lambda>c. c < 128) s" by (simp add: is_ascii_def)
    from encode_ascii [OF this, of db] Some show ?thesis
      by (auto simp: normal_form_def)
  qed
  moreover have "encode_string db (encode_string db t) = encode_string db t"
    if "normal_form (encode_string db t)"
  proof -
    obtain r where r: "encode_string db t = Some r"
      using Some by (simp add: encode_string_def)
    with that have "list_all norm_char r" by (simp add: normal_form_def)
    with r show ?thesis by (simp add: encode_norm)
  qed
  ultimately show ?thesis by blast
qed

theorem encode_string_idempotent_normal_witness:
  "is_ascii (Some (ascii ''The Beatles!'')) \<and>
   normal_form (encode_string unidecode_doc (Some (ascii ''The Beatles!''))) \<and>
   encode_string unidecode_doc (Some (ascii ''The Beatles!'')) = Some (ascii ''thebeatles'') \<and>
   encode_string unidecode_doc (encode_string unidecode_doc (Some (ascii ''The Beatles!''))) =
     Some (ascii ''thebeatles'')"
proof -
  have a: "is_ascii (Some (ascii ''The Beatles!''))"
    by (simp add: is_ascii_def ascii_def)
  have e: "encode_string unidecode_doc (Some (ascii ''The Beatles!'')) = Some (ascii ''thebeatles'')"
    by (simp add: ascii_def encode_string_def re_sub_nonword_def re_sub_spaces_def strip_def
        lower_def unidecode_def is_word_def is_space_def lower_char_def unidecode_char_def)
  from encode_string_idempotent_normal [of "Some (ascii ''The Beatles!'')" unidecode_doc] a e
  show ?thesis by simp
qed

text \<open>
  C7 as stated fails beyond ASCII, because the transliteration runs last: U+5317 is
  normalized to \<^verbatim>\<open>'Bei '\<close>, which is normalized to \<^verbatim>\<open>'bei'\<close>.
\<close>

theorem encode_string_idempotent_counterexample:
  "encode_string unidecode_doc (encode_string unidecode_doc (Some [21271])) \<noteq>
   encode_string unidecode_doc (Some [21271])"
  by (simp add: encode_string_def re_sub_nonword_def re_sub_spaces_def strip_def
      lower_def unidecode_def is_word_def is_space_def lower_char_def unidecode_char_def
      unidecode_doc_def)

section \<open>Properties of FuzzyIndex\<close>

text \<open>
  C5 (as amended). When the nearest-neighbour backend is unavailable, build leaves the
  object as it is and search returns the empty list for every query, without an error.
\<close>

theorem search_backend_unavailable:
  "\<not> have_nmslib self \<Longrightarrow>
     FuzzyIndex_build be self search_data = Inr self \<and> FuzzyIndex_search be self query_string = Inr []"
  by (simp add: FuzzyIndex_build_def FuzzyIndex_search_def)

theorem search_backend_unavailable_witness:
  "\<not> have_nmslib (FuzzyIndex_init False :: (ustr list, nat list) FuzzyIndex) \<and>
   FuzzyIndex_build toy_backend (FuzzyIndex_init False) [([119, 97, 114], 0)] = Inr (FuzzyIndex_init False) \<and>
   FuzzyIndex_search toy_backend (FuzzyIndex_init False) [119, 97, 114] = Inr []"
proof -
  have h: "\<not> have_nmslib (FuzzyIndex_init False :: (ustr list, nat list) FuzzyIndex)"
    by (simp add: FuzzyIndex_init_def)
  from search_backend_unavailable [OF h, of toy_backend "[([119, 97, 114], 0)]" "[119, 97, 114]"] h
  show ?thesis by simp
qed

text \<open>
  C5 as stated fails: with the backend available, search on an object on which build was
  never called raises AttributeError (its vectorizer is None).
\<close>

theorem search_never_built_counterexample:
  "FuzzyIndex_search toy_backend (FuzzyIndex_init True) [119, 97, 114] = Inl AttributeError"
  by (simp add: FuzzyIndex_search_def FuzzyIndex_init_def)

text \<open>
  C6. The code at the failing input: the call with \<^verbatim>\<open>min_confidence=0.5\<close> (or any
  other threshold) raises TypeError, whatever the index, the query and the backend are:
  search has no such parameter. Its body, on a built index, returns every neighbour that
  the backend yields, with the absolute value of its distance as the confidence: nothing
  is filtered.
\<close>

theorem search_min_confidence_rejected:
  "FuzzyIndex_search_call be self query_string [(''min_confidence'', c)] = Inl TypeError \<and>
   FuzzyIndex_search be \<lparr>have_nmslib = True, vectorizer = Some v, index = Some ix\<rparr> query_string =
     Inr (map (\<lambda>(i, conf). \<lparr>hit_confidence = \<bar>conf\<bar>, hit_id = i, hit_text = query_string\<rparr>)
            (zip (fst (knn_query be v ix query_string 3)) (snd (knn_query be v ix query_string 3))))"
  by (simp add: FuzzyIndex_search_call_def FuzzyIndex_search_def Let_def)

text \<open>
  Whenever search returns with the backend available, the object was built and the
  results are the backend's neighbours, each with the absolute value of its distance.
\<close>

lemma search_confidence_abs:
  "FuzzyIndex_search be self q = Inr out \<Longrightarrow> have_nmslib self \<Longrightarrow>
   \<exists>v ix. vectorizer self = Some v \<and> index self = Some ix \<and>
     out = map (\<lambda>(i, conf). \<lparr>hit_confidence = \<bar>conf\<bar>, hit_id = i, hit_text = q\<rparr>)
             (zip (fst (knn_query be v ix q 3)) (snd (knn_query be v ix q 3)))"
  by (auto simp: FuzzyIndex_search_def Let_def split: option.splits)

section \<open>Properties of load\_artist and search\<close>

lemmas encode_simps = encode_string_def re_sub_nonword_def re_sub_spaces_def strip_def
      lower_def unidecode_def is_word_def is_space_def lower_char_def unidecode_char_def
      unidecode_doc_def

lemma enumerate_0_simps:
  "enumerate n [] = []" "enumerate n (x # xs) = (n, x) # enumerate (Suc n) xs"
  by simp_all

lemma scan_toy_1:
  "scan_rows unidecode_doc (toy_store 1) =
     \<lparr>sc_recording_ref = [(Some [119, 97, 114], [\<lparr>ref_id = 10, ref_release_id = 20, ref_score = 1\<rparr>]),
                          (Some [112, 97, 120], [\<lparr>ref_id = 11, ref_release_id = 21, ref_score = 2\<rparr>])],
      sc_recording_releases = [(10, [20]), (11, [21])],
      sc_release_data = [\<lparr>ri_id = 20, ri_text = Some [119, 97, 114], ri_score = 1\<rparr>,
                         \<lparr>ri_id = 21, ri_text = Some [112], ri_score = 2\<rparr>]\<rparr>"
  by (simp add: scan_rows_def scan_row_def toy_store_def truthy_def encode_simps)

lemma load_toy_1:
  "load_artist toy_api unidecode_doc toy_store 1 \<lparr>artist_data = Map.empty, db_queries = qs\<rparr> =
     (Inr (Some toy_entry), \<lparr>artist_data = [1 \<mapsto> toy_entry], db_queries = qs @ [1]\<rparr>)"
  by (simp add: load_artist_def scan_toy_1 recording_groups_def release_groups_def toy_api_def
      toy_entry_def Let_def)

text \<open>
  C4. When a call of load\_artist returns an entry, a second call for the same artist on
  the resulting state returns the same entry and leaves the state as it is: the cache is
  unchanged and no query is added to the log of the row store.
\<close>

theorem load_artist_memoized:
  "load_artist api db rows_for a st = (Inr (Some e), st1) \<Longrightarrow>
   load_artist api db rows_for a st1 = (Inr (Some e), st1)"
  by (auto simp: load_artist_def Let_def split: option.splits if_splits sum.splits)

theorem load_artist_memoized_witness:
  "load_artist toy_api unidecode_doc toy_store 1 MappingLookupSearch_init =
     (Inr (Some toy_entry), \<lparr>artist_data = [1 \<mapsto> toy_entry], db_queries = [1]\<rparr>) \<and>
   load_artist toy_api unidecode_doc toy_store 1 \<lparr>artist_data = [1 \<mapsto> toy_entry], db_queries = [1]\<rparr> =
     (Inr (Some toy_entry), \<lparr>artist_data = [1 \<mapsto> toy_entry], db_queries = [1]\<rparr>)"
proof -
  have h: "load_artist toy_api unidecode_doc toy_store 1 MappingLookupSearch_init =
     (Inr (Some toy_entry), \<lparr>artist_data = [1 \<mapsto> toy_entry], db_queries = [1]\<rparr>)"
    using load_toy_1 [of "[]"] by (simp add: MappingLookupSearch_init_def)
  from load_artist_memoized [OF h] h show ?thesis by simp
qed

text \<open>
  C3 (as amended). For an artist that is not cached and has no rows, load\_artist returns
  None after one query to the row store and stores nothing: the state differs from the
  one before the call by the logged query only, so the failed lookup leaves the cache as
  if it had never been attempted and every repetition queries the row store again.
\<close>

theorem load_artist_no_rows:
  "artist_data st a = None \<Longrightarrow> rows_for a = [] \<Longrightarrow>
   load_artist api db rows_for a st = (Inr None, st\<lparr>db_queries := db_queries st @ [a]\<rparr>)"
  by (simp add: load_artist_def scan_rows_def recording_groups_def)

theorem load_artist_no_rows_witness:
  "artist_data (MappingLookupSearch_init :: (ustr option \<times> nat) list lookup_state) 7 = None \<and>
   toy_store 7 = [] \<and>
   load_artist toy_api unidecode_doc toy_store 7 MappingLookupSearch_init =
     (Inr None, \<lparr>artist_data = Map.empty, db_queries = [7]\<rparr>) \<and>
   load_artist toy_api unidecode_doc toy_store 7 \<lparr>artist_data = Map.empty, db_queries = [7]\<rparr> =
     (Inr None, \<lparr>artist_data = Map.empty, db_queries = [7, 7]\<rparr>)"
proof -
  have r: "toy_store 7 = []" by (simp add: toy_store_def)
  have "load_artist toy_api unidecode_doc toy_store 7 \<lparr>artist_data = Map.empty, db_queries = qs\<rparr> =
     (Inr None, \<lparr>artist_data = Map.empty, db_queries = qs @ [7]\<rparr>)" for qs
    using load_artist_no_rows [of "\<lparr>artist_data = Map.empty, db_queries = qs\<rparr>" 7 toy_store toy_api unidecode_doc] r
    by simp
  from this [of "[]"] this [of "[7]"] r show ?thesis
    by (simp add: MappingLookupSearch_init_def)
qed

text \<open>
  C3 as stated fails: after a first call that returned None for artist 7, the cache has no
  key 7, and the second call sends a second query to the row store.
\<close>

theorem load_artist_not_found_counterexample:
  "fst (load_artist toy_api unidecode_doc toy_store 7 MappingLookupSearch_init) = Inr None \<and>
   artist_data (snd (load_artist toy_api unidecode_doc toy_store 7 MappingLookupSearch_init)) 7 = None \<and>
   db_queries (snd (load_artist toy_api unidecode_doc toy_store 7 MappingLookupSearch_init)) = [7] \<and>
   db_queries (snd (load_artist toy_api unidecode_doc toy_store 7
      (snd (load_artist toy_api unidecode_doc toy_store 7 MappingLookupSearch_init)))) = [7, 7]"
  by (simp add: load_artist_def scan_rows_def recording_groups_def toy_store_def
      MappingLookupSearch_init_def)

text \<open>
  C2. The code at the failing input: when the only candidate artist has no rows, and when
  there is no candidate at all, search returns Python's None, not an empty list.
\<close>

theorem search_exhausted_returns_None:
  "fst (search toy_api unidecode_doc toy_store
          \<lparr>req_id = 5, req_artist_ids = [7], req_artist_name = Some [119, 97, 114],
           req_release_name = Some [119, 97, 114], req_recording_name = Some [119, 97, 114]\<rparr>
          MappingLookupSearch_init) = Inr None \<and>
   fst (search toy_api unidecode_doc toy_store
          \<lparr>req_id = 5, req_artist_ids = [], req_artist_name = Some [119, 97, 114],
           req_release_name = Some [119, 97, 114], req_recording_name = Some [119, 97, 114]\<rparr>
          MappingLookupSearch_init) = Inr None"
  by (simp add: search_def load_artist_def scan_rows_def recording_groups_def toy_store_def
      MappingLookupSearch_init_def)

lemma search_artist_nonempty:
  "search_artist api rid rec_name rel_name ad = Inr (Return res) \<Longrightarrow> res \<noteq> []"
  by (auto simp: search_artist_def split: sum.splits if_splits)

text \<open>
  More generally, search never returns an empty list: what it returns is None or a list
  with at least one result.
\<close>

lemma search_loop_never_empty:
  "search_loop api db rows_for rid rec_name rel_name ids st = (Inr (Some res), st') \<Longrightarrow> res \<noteq> []"
proof (induction ids arbitrary: st)
  case Nil
  then show ?case by simp
next
  case (Cons a ids)
  then show ?case
    by (auto split: prod.splits sum.splits option.splits outcome.splits dest: search_artist_nonempty)
qed


lemma has_ref_Cons:
  "has_ref ((k', vs') # m) k v \<longleftrightarrow> (k = k' \<and> v \<in> set vs') \<or> has_ref m k v"
  by (auto simp: has_ref_def)

lemma has_ref_Nil: "\<not> has_ref [] k v"
  by (simp add: has_ref_def)

lemma dd_append_has: "has_ref (dd_append k v m) k v"
  by (induction m) (auto simp: has_ref_Cons)

lemma dd_append_keeps: "has_ref m k v \<Longrightarrow> has_ref (dd_append k' v' m) k v"
  by (induction m) (auto simp: has_ref_Cons has_ref_Nil)

lemma scan_release_data:
  "sc_release_data (foldl (scan_row db) sc rows) =
     sc_release_data sc @
     map (\<lambda>r. \<lparr>ri_id = row_release_id r, ri_text = encode_string db (row_release_name r), ri_score = row_score r\<rparr>)
       (filter (\<lambda>r. truthy (encode_string db (row_release_name r))) rows)"
  by (induction rows arbitrary: sc) (simp_all add: scan_row_def Let_def)

lemma scan_recording_ref_keeps:
  "has_ref (sc_recording_ref sc) k v \<Longrightarrow> has_ref (sc_recording_ref (foldl (scan_row db) sc rows)) k v"
  by (induction rows arbitrary: sc) (simp_all add: scan_row_def Let_def dd_append_keeps)

lemma scan_recording_ref_has:
  "r \<in> set rows \<Longrightarrow>
   has_ref (sc_recording_ref (foldl (scan_row db) sc rows)) (encode_string db (row_recording_name r))
     \<lparr>ref_id = row_recording_id r, ref_release_id = row_release_id r, ref_score = row_score r\<rparr>"
proof (induction rows arbitrary: sc)
  case Nil
  then show ?case by simp
next
  case (Cons x rows)
  show ?case
  proof (cases "r = x")
    case True
    have "has_ref (sc_recording_ref (scan_row db sc x)) (encode_string db (row_recording_name r))
       \<lparr>ref_id = row_recording_id r, ref_release_id = row_release_id r, ref_score = row_score r\<rparr>"
      using True by (simp add: scan_row_def Let_def dd_append_has)
    then show ?thesis by (simp add: scan_recording_ref_keeps)
  next
    case False
    with Cons.prems have "r \<in> set rows" by simp
    then show ?thesis using Cons.IH by simp
  qed
qed

lemma scan_recording_ref_not_Nil:
  "rows \<noteq> [] \<Longrightarrow> sc_recording_ref (scan_rows db rows) \<noteq> []"
proof -
  assume "rows \<noteq> []"
  then obtain r where "r \<in> set rows" by (cases rows) auto
  from scan_recording_ref_has [OF this, of db]
  have "\<exists>k v. has_ref (sc_recording_ref (scan_rows db rows)) k v"
    unfolding scan_rows_def by blast
  then show ?thesis by (auto simp: has_ref_Nil)
qed

lemma recording_groups_Nil: "recording_groups m = [] \<longleftrightarrow> m = []"
  by (simp add: recording_groups_def enumerate_eq_zip)

lemma recording_groups_has:
  assumes "has_ref m k v"
  shows "\<exists>g\<in>set (recording_groups m). rg_text g = k \<and> v \<in> set (rg_recording_data g)"
proof -
  from assms obtain vs where "(k, vs) \<in> set m" "v \<in> set vs" by (auto simp: has_ref_def)
  then obtain i where i: "i < length m" "m ! i = (k, vs)" by (auto simp: in_set_conv_nth)
  then have "(i, (k, vs)) \<in> set (enumerate 0 m)"
    by (auto simp: in_set_conv_nth nth_enumerate_eq intro!: exI [of _ i])
  then have "\<lparr>rg_text = k, rg_id = i, rg_recording_data = vs\<rparr> \<in> set (recording_groups m)"
    by (force simp: recording_groups_def)
  with \<open>v \<in> set vs\<close> show ?thesis by force
qed

text \<open>
  With the FuzzyIndex of fuzzy\_index.py itself, load\_artist raises TypeError at the
  first build, for every artist that is not cached and has rows.
\<close>

lemma load_artist_fuzzy_index_api:
  "artist_data st a = None \<Longrightarrow> rows_for a \<noteq> [] \<Longrightarrow>
   fst (load_artist fuzzy_index_api db rows_for a st) = Inl TypeError"
  by (simp add: load_artist_def Let_def recording_groups_Nil scan_recording_ref_not_Nil
      fuzzy_index_api_def)

text \<open>
  What load\_artist does, for any index, with an artist that is not cached, whose rows are
  not empty and whose release names all normalize to an empty (or absent) text: it builds
  the recording index from the recording groups and, when that build raises, ends with
  its error; otherwise it returns None. Nothing is stored either way.
\<close>

lemma load_artist_no_release_names:
  assumes "artist_data st a = None"
    and "rows_for a \<noteq> []"
    and "\<forall>r\<in>set (rows_for a). \<not> truthy (encode_string db (row_release_name r))"
  shows "load_artist api db rows_for a st =
           (case ix_build api (map (\<lambda>g. (rg_text g, rg_id g))
                   (recording_groups (sc_recording_ref (scan_rows db (rows_for a))))) of
              Inl e \<Rightarrow> Inl e
            | Inr idx \<Rightarrow> Inr None,
            st\<lparr>db_queries := db_queries st @ [a]\<rparr>)"
proof -
  let ?sc = "scan_rows db (rows_for a)"
  have "filter (\<lambda>r. truthy (encode_string db (row_release_name r))) (rows_for a) = []"
    using assms(3) by (simp add: filter_empty_conv)
  then have "sc_release_data ?sc = []"
    by (simp add: scan_rows_def scan_release_data)
  then have rel: "release_groups (sc_release_data ?sc) = []"
    by (simp add: release_groups_def)
  have ne: "recording_groups (sc_recording_ref ?sc) \<noteq> []"
    using assms(2) by (simp add: recording_groups_Nil scan_recording_ref_not_Nil)
  show ?thesis
    using assms(1) rel ne by (simp add: load_artist_def Let_def split: sum.splits)
qed

text \<open>
  Every row is in the recording group of its normalized recording name, also when that
  name is empty or None, and these groups are what the entry of a successful load holds.
\<close>

lemma recording_groups_every_row:
  assumes "r \<in> set rows"
  shows "\<exists>g\<in>set (recording_groups (sc_recording_ref (scan_rows db rows))).
           rg_text g = encode_string db (row_recording_name r) \<and>
           \<lparr>ref_id = row_recording_id r, ref_release_id = row_release_id r, ref_score = row_score r\<rparr>
             \<in> set (rg_recording_data g)"
  using scan_recording_ref_has [OF assms, of db] by (simp add: scan_rows_def recording_groups_has)

lemma load_artist_entry_groups:
  "artist_data st a = None \<Longrightarrow> load_artist api db rows_for a st = (Inr (Some e), st') \<Longrightarrow>
   ad_recording_data e = recording_groups (sc_recording_ref (scan_rows db (rows_for a))) \<and>
   ix_build api (map (\<lambda>g. (rg_text g, rg_id g)) (ad_recording_data e)) = Inr (ad_recording_index e)"
  by (auto simp: load_artist_def Let_def split: if_splits sum.splits)

text \<open>
  C10. The code at the failing input: artist 2 is not cached, has two rows, and both
  release names normalize to the empty text; the second recording name does too. With the
  FuzzyIndex of fuzzy\_index.py, load\_artist does not return None: the build of the
  recording index, which comes before the test of the release groups, raises TypeError.
\<close>

theorem load_artist_build_raises:
  "toy_store 2 \<noteq> [] \<and>
   map (\<lambda>r. encode_string unidecode_doc (row_release_name r)) (toy_store 2) = [Some [], Some []] \<and>
   map (\<lambda>r. encode_string unidecode_doc (row_recording_name r)) (toy_store 2) =
     [Some [119, 97, 114], Some []] \<and>
   load_artist fuzzy_index_api unidecode_doc toy_store 2 MappingLookupSearch_init =
     (Inl TypeError, \<lparr>artist_data = Map.empty, db_queries = [2]\<rparr>)"
proof -
  have enc: "map (\<lambda>r. encode_string unidecode_doc (row_release_name r)) (toy_store 2) = [Some [], Some []]"
    "map (\<lambda>r. encode_string unidecode_doc (row_recording_name r)) (toy_store 2) =
       [Some [119, 97, 114], Some []]"
    by (simp_all add: toy_store_def encode_simps)
  have ne: "toy_store 2 \<noteq> []" by (simp add: toy_store_def)
  have "\<forall>r\<in>set (toy_store 2). \<not> truthy (encode_string unidecode_doc (row_release_name r))"
    by (simp add: toy_store_def truthy_def encode_simps)
  from load_artist_no_release_names [of MappingLookupSearch_init 2 toy_store unidecode_doc fuzzy_index_api, OF _ ne this]
  have "load_artist fuzzy_index_api unidecode_doc toy_store 2 MappingLookupSearch_init =
     (Inl TypeError, \<lparr>artist_data = Map.empty, db_queries = [2]\<rparr>)"
    by (simp add: MappingLookupSearch_init_def fuzzy_index_api_def)
  with enc ne show ?thesis by simp
qed

section \<open>Properties of the combination\<close>




lemma combine_alt:
  "combine rec_rel rec_results rel_results =
     concat (map (\<lambda>r. map (\<lambda>l.
         \<lparr>c_recording_id = rr_id r, c_recording_text = rr_text r, c_recording_conf = rr_confidence r,
          c_score = rr_score r, c_release_id = lr_id l, c_release_name = lr_text l,
          c_release_conf = lr_confidence l,
          c_confidence = (rr_confidence r + lr_confidence l) / 2\<rparr>) (take 3 rel_results))
       (filter (\<lambda>r. rr_id r \<in> set (map fst rec_rel)) (take 3 rec_results)))"
proof -
  have inner: "concat (map (\<lambda>l. if P then [f l] else []) ls) = (if P then map f ls else [])"
    for P and f :: "rel_result \<Rightarrow> combined" and ls
    by (induction ls) auto
  have outer: "concat (map (\<lambda>r. if P r then g r else []) rs) = concat (map g (filter P rs))"
    for P and g :: "rec_result \<Rightarrow> combined list" and rs
    by (induction rs) auto
  show ?thesis
    unfolding combine_def inner outer ..
qed



lemma combine_mean:
  "h \<in> set (combine rec_rel rec_results rel_results) \<Longrightarrow>
   c_confidence h = (c_recording_conf h + c_release_conf h) / 2"
  by (auto simp: combine_alt)






lemma toy_recording_stage:
  "recording_stage toy_api toy_entry (Some [112, 97, 120]) = Inr toy_rec_results"
  by (simp add: recording_stage_def toy_api_def toy_entry_def RECORDING_CONFIDENCE_def
      toy_rec_results_def)

lemma toy_release_stage:
  "release_stage toy_api toy_entry (Some [122, 122, 122]) = Inr toy_rel_results"
  by (simp add: release_stage_def toy_api_def toy_entry_def RELEASE_CONFIDENCE_def
      toy_rel_results_def)


section \<open>Properties of the worker\<close>

lemma worker_loop_exit:
  assumes "msg_exit e" and "\<forall>m\<in>set pre. \<not> msg_exit m" and "w_status w = Ready"
  shows "worker_loop api db rows_for elapsed (pre @ e # post) w =
         halt e (worker_loop api db rows_for elapsed pre w)"
  using assms(2,3)
proof (induction pre arbitrary: w)
  case Nil
  with assms(1) show ?case by (simp add: halt_def)
next
  case (Cons m pre)
  then show ?case
    by (auto simp: halt_def split: prod.splits sum.splits)
qed

lemma halt_out_d: "w_out_d (halt e w) = w_out_d w"
  by (simp add: halt_def)

lemma halt_status: "w_status (halt e w) \<noteq> Ready"
  by (simp add: halt_def)

lemma alternating_step:
  "alternating (Received m # Wrote i # evs) = (\<not> msg_exit m \<and> i = req_id (msg_req m) \<and> alternating evs)"
  by simp

lemma worker_loop_trace:
  "\<exists>evs. w_trace (worker_loop api db rows_for elapsed in_q w) = w_trace w @ evs \<and> alternating evs"
proof (induction in_q arbitrary: w)
  case Nil
  show ?case by simp
next
  case (Cons m in_q)
  show ?case
  proof (cases "msg_exit m")
    case True
    then show ?thesis by simp
  next
    case False
    obtain r ms where s: "search api db rows_for (msg_req m) (w_ms w) = (r, ms)"
      by (cases "search api db rows_for (msg_req m) (w_ms w)")
    show ?thesis
    proof (cases r)
      case (Inl e)
      with False s show ?thesis by simp
    next
      case (Inr ret)
      let ?w = "w\<lparr>w_ms := ms,
               w_out_d := (w_out_d w)(req_id (msg_req m) \<mapsto> (ret, elapsed (msg_req m), req_id (msg_req m))),
               w_trace := w_trace w @ [Received m, Wrote (req_id (msg_req m))]\<rparr>"
      from Cons.IH [of ?w] obtain evs
        where "w_trace (worker_loop api db rows_for elapsed in_q ?w) = w_trace ?w @ evs"
          and "alternating evs" by blast
      with False s Inr show ?thesis
        by (intro exI [of _ "Received m # Wrote (req_id (msg_req m)) # evs"]) simp
    qed
  qed
qed

lemma served_prefix:
  "map fst (served api db rows_for st pre) = take (length (served api db rows_for st pre)) pre"
  by (induction pre arbitrary: st) (auto split: prod.splits sum.splits)

lemma served_length: "length (served api db rows_for st pre) \<le> length pre"
  by (induction pre arbitrary: st) (auto split: prod.splits sum.splits)

lemma worker_loop_served_trace:
  "\<forall>m\<in>set pre. \<not> msg_exit m \<Longrightarrow>
   w_trace (worker_loop api db rows_for elapsed pre w) =
     w_trace w @
     concat (map (\<lambda>(m, ret). [Received m, Wrote (req_id (msg_req m))]) (served api db rows_for (w_ms w) pre)) @
     (if length (served api db rows_for (w_ms w) pre) = length pre then []
      else [Received (pre ! length (served api db rows_for (w_ms w) pre))])"
  by (induction pre arbitrary: w) (auto split: prod.splits sum.splits)

lemma worker_loop_served_out_d:
  "\<forall>m\<in>set pre. \<not> msg_exit m \<Longrightarrow>
   w_out_d (worker_loop api db rows_for elapsed pre w) =
     foldl (\<lambda>d (m, ret). d(req_id (msg_req m) \<mapsto> (ret, elapsed (msg_req m), req_id (msg_req m))))
       (w_out_d w) (served api db rows_for (w_ms w) pre)"
  by (induction pre arbitrary: w) (auto split: prod.splits sum.splits)

lemma worker_loop_served_status:
  "\<forall>m\<in>set pre. \<not> msg_exit m \<Longrightarrow>
   (if length (served api db rows_for (w_ms w) pre) = length pre
    then w_status (worker_loop api db rows_for elapsed pre w) = w_status w
    else \<exists>err. w_status (worker_loop api db rows_for elapsed pre w) = Failed err)"
proof (induction pre arbitrary: w)
  case Nil
  show ?case by simp
next
  case (Cons m pre)
  obtain r st' where s: "search api db rows_for (msg_req m) (w_ms w) = (r, st')"
    by (cases "search api db rows_for (msg_req m) (w_ms w)")
  show ?case
  proof (cases r)
    case (Inl err)
    with Cons.prems s show ?thesis by simp
  next
    case (Inr ret)
    let ?w = "w\<lparr>w_ms := st',
               w_out_d := (w_out_d w)(req_id (msg_req m) \<mapsto> (ret, elapsed (msg_req m), req_id (msg_req m))),
               w_trace := w_trace w @ [Received m, Wrote (req_id (msg_req m))]\<rparr>"
    from Cons.prems have "\<forall>m\<in>set pre. \<not> msg_exit m" by simp
    from Cons.IH [OF this, of ?w] Cons.prems s Inr show ?thesis by simp
  qed
qed

lemma concat_events_fst:
  "concat (map (\<lambda>(m, ret). [Received m, Wrote (req_id (msg_req m))]) sv) =
   concat (map (\<lambda>m. [Received m, Wrote (req_id (msg_req m))]) (map fst sv))"
  by (induction sv) auto

text \<open>
  C9. Let the queue deliver the messages \<open>pre\<close>, none of them an exit message, then the
  exit message \<open>e\<close>, then any messages \<open>post\<close>. The worker ends as it would on \<open>pre\<close>
  alone, halted by \<open>e\<close>, so nothing is written for \<open>e\<close> or for a message of \<open>post\<close> and no
  message of \<open>post\<close> is ever received. The worker is not left waiting, and receiving a
  request and writing its result alternate. What the worker has done is exactly this: it
  has received the requests of \<open>pre\<close> in their order and written for each the value that
  search returned for it, one request after the other, up to the first request on which
  search raised, if there is one; then it has received the message that follows (that
  request, or \<open>e\<close>). When no search raised it has stopped; and when it has stopped, every
  request of \<open>pre\<close> was received and answered, in order, before \<open>e\<close> was received.
\<close>

theorem worker_stops_at_exit:
  assumes "msg_exit e" and "\<forall>m\<in>set pre. \<not> msg_exit m"
  shows "mapping_lookup_process api db rows_for elapsed (pre @ e # post) out_d =
           halt e (mapping_lookup_process api db rows_for elapsed pre out_d) \<and>
         w_out_d (mapping_lookup_process api db rows_for elapsed (pre @ e # post) out_d) =
           w_out_d (mapping_lookup_process api db rows_for elapsed pre out_d) \<and>
         w_status (mapping_lookup_process api db rows_for elapsed (pre @ e # post) out_d) \<noteq> Ready \<and>
         alternating (w_trace (mapping_lookup_process api db rows_for elapsed (pre @ e # post) out_d)) \<and>
         w_trace (mapping_lookup_process api db rows_for elapsed (pre @ e # post) out_d) =
           concat (map (\<lambda>(m, ret). [Received m, Wrote (req_id (msg_req m))])
                     (served api db rows_for MappingLookupSearch_init pre)) @
           [Received ((pre @ [e]) ! length (served api db rows_for MappingLookupSearch_init pre))] \<and>
         w_out_d (mapping_lookup_process api db rows_for elapsed (pre @ e # post) out_d) =
           foldl (\<lambda>d (m, ret). d(req_id (msg_req m) \<mapsto> (ret, elapsed (msg_req m), req_id (msg_req m))))
             out_d (served api db rows_for MappingLookupSearch_init pre) \<and>
         map fst (served api db rows_for MappingLookupSearch_init pre) =
           take (length (served api db rows_for MappingLookupSearch_init pre)) pre \<and>
         (length (served api db rows_for MappingLookupSearch_init pre) = length pre \<longrightarrow>
            w_status (mapping_lookup_process api db rows_for elapsed (pre @ e # post) out_d) = Stopped) \<and>
         (w_status (mapping_lookup_process api db rows_for elapsed (pre @ e # post) out_d) = Stopped \<longrightarrow>
            map fst (served api db rows_for MappingLookupSearch_init pre) = pre \<and>
            w_trace (mapping_lookup_process api db rows_for elapsed (pre @ e # post) out_d) =
              concat (map (\<lambda>m. [Received m, Wrote (req_id (msg_req m))]) pre) @ [Received e])"
proof -
  let ?w0 = "\<lparr>w_ms = MappingLookupSearch_init, w_out_d = out_d, w_status = Ready, w_trace = []\<rparr>
               :: 'a worker"
  let ?sv = "served api db rows_for MappingLookupSearch_init pre"
  let ?run = "mapping_lookup_process api db rows_for elapsed (pre @ e # post) out_d"
  let ?pre = "mapping_lookup_process api db rows_for elapsed pre out_d"
  let ?ev = "\<lambda>(m, ret). [Received m, Wrote (req_id (msg_req m))]"
  have eq: "?run = halt e ?pre"
    unfolding mapping_lookup_process_def
    by (rule worker_loop_exit [OF assms]) simp
  have "alternating (w_trace (mapping_lookup_process api db rows_for elapsed q out_d))" for q
    using worker_loop_trace [of api db rows_for elapsed q ?w0]
    by (auto simp: mapping_lookup_process_def)
  then have alt: "alternating (w_trace ?run)" .
  have od: "w_out_d ?run = w_out_d ?pre"
    by (simp only: eq halt_out_d)
  have nr: "w_status ?run \<noteq> Ready"
    by (simp only: eq halt_status not_False_eq_True)
  have tr_pre: "w_trace ?pre =
      concat (map ?ev ?sv) @ (if length ?sv = length pre then [] else [Received (pre ! length ?sv)])"
    using worker_loop_served_trace [OF assms(2), of api db rows_for elapsed ?w0]
    by (simp add: mapping_lookup_process_def)
  have st_pre: "if length ?sv = length pre then w_status ?pre = Ready
      else \<exists>err. w_status ?pre = Failed err"
    using worker_loop_served_status [OF assms(2), of api db rows_for ?w0 elapsed]
    by (simp add: mapping_lookup_process_def)
  have out: "w_out_d ?run =
      foldl (\<lambda>d (m, ret). d(req_id (msg_req m) \<mapsto> (ret, elapsed (msg_req m), req_id (msg_req m)))) out_d ?sv"
  proof -
    have "w_out_d ?pre =
      foldl (\<lambda>d (m, ret). d(req_id (msg_req m) \<mapsto> (ret, elapsed (msg_req m), req_id (msg_req m)))) out_d ?sv"
      using worker_loop_served_out_d [OF assms(2), of api db rows_for elapsed ?w0]
      by (simp add: mapping_lookup_process_def)
    then show ?thesis by (simp only: od)
  qed
  have le: "length ?sv \<le> length pre" by (rule served_length)
  have tr: "w_trace ?run = concat (map ?ev ?sv) @ [Received ((pre @ [e]) ! length ?sv)]"
  proof (cases "length ?sv = length pre")
    case True
    with st_pre have "w_status ?pre = Ready" by simp
    then show ?thesis using True tr_pre by (simp add: eq halt_def)
  next
    case False
    with st_pre obtain err where "w_status ?pre = Failed err" by auto
    moreover from False le have "length ?sv < length pre" by simp
    ultimately show ?thesis using False tr_pre by (simp add: eq halt_def nth_append)
  qed
  have stop: "w_status ?run = Stopped" if "length ?sv = length pre"
    using that st_pre by (simp add: eq halt_def)
  have full: "map fst ?sv = pre \<and>
      w_trace ?run = concat (map (\<lambda>m. [Received m, Wrote (req_id (msg_req m))]) pre) @ [Received e]"
    if "w_status ?run = Stopped"
  proof -
    have len: "length ?sv = length pre"
    proof (rule ccontr)
      assume "length ?sv \<noteq> length pre"
      with st_pre obtain err where "w_status ?pre = Failed err" by auto
      then have "w_status ?run = Failed err" by (simp add: eq halt_def)
      with that show False by simp
    qed
    then have f: "map fst ?sv = pre" using served_prefix [of api db rows_for MappingLookupSearch_init pre]
      by simp
    have "concat (map ?ev ?sv) = concat (map (\<lambda>m. [Received m, Wrote (req_id (msg_req m))]) pre)"
      by (simp only: concat_events_fst f)
    with tr len f show ?thesis by simp
  qed
  show ?thesis
    using eq od nr alt tr out served_prefix [of api db rows_for MappingLookupSearch_init pre] stop full
    by blast
qed

lemma toy_search:
  "search toy_api unidecode_doc toy_store toy_request MappingLookupSearch_init =
     (Inr (Some [(20, 11, 4 / 5, 5)]), \<lparr>artist_data = [1 \<mapsto> toy_entry], db_queries = [7, 1]\<rparr>)"
proof -
  have enc: "encode_string unidecode_doc (req_release_name toy_request) = Some [122, 122, 122]"
    "encode_string unidecode_doc (req_recording_name toy_request) = Some [112, 97, 120]"
    by (simp_all add: toy_request_def encode_simps)
  have l7: "load_artist toy_api unidecode_doc toy_store 7 MappingLookupSearch_init =
       (Inr None, \<lparr>artist_data = Map.empty, db_queries = [7]\<rparr>)"
    by (simp add: load_artist_def scan_rows_def recording_groups_def toy_store_def
        MappingLookupSearch_init_def)
  have sa: "search_artist toy_api 5 (Some [112, 97, 120]) (Some [122, 122, 122]) toy_entry =
      Inr (Return [(20, 11, 4 / 5, 5)])"
    by (simp add: search_artist_def combined_hits_def toy_recording_stage toy_release_stage truthy_def)
       (simp add: combine_def toy_entry_def toy_rec_results_def toy_rel_results_def)
  have ids: "req_artist_ids toy_request = [7, 1]" "req_id toy_request = 5"
    by (simp_all add: toy_request_def)
  show ?thesis
    by (simp add: search_def enc ids l7 load_toy_1 sa)
qed

lemma toy_search2:
  "search toy_api unidecode_doc toy_store toy_request2
     \<lparr>artist_data = [1 \<mapsto> toy_entry], db_queries = [7, 1]\<rparr> =
     (Inr (Some [(20, 10, 1, 6), (21, 11, 3 / 5, 6)]),
      \<lparr>artist_data = [1 \<mapsto> toy_entry], db_queries = [7, 1]\<rparr>)"
proof -
  have enc: "encode_string unidecode_doc (req_release_name toy_request2) = None"
    "encode_string unidecode_doc (req_recording_name toy_request2) = Some [119, 97, 114]"
    by (simp_all add: toy_request2_def encode_simps)
  have l1: "load_artist toy_api unidecode_doc toy_store 1
       \<lparr>artist_data = [1 \<mapsto> toy_entry], db_queries = [7, 1]\<rparr> =
       (Inr (Some toy_entry), \<lparr>artist_data = [1 \<mapsto> toy_entry], db_queries = [7, 1]\<rparr>)"
    by (simp add: load_artist_def)
  have sa: "search_artist toy_api 6 (Some [119, 97, 114]) None toy_entry =
      Inr (Return [(20, 10, 1, 6), (21, 11, 3 / 5, 6)])"
    by (simp add: search_artist_def recording_stage_def truthy_def toy_api_def toy_entry_def
        RECORDING_CONFIDENCE_def)
  have ids: "req_artist_ids toy_request2 = [1]" "req_id toy_request2 = 6"
    by (simp_all add: toy_request2_def)
  show ?thesis
    by (simp add: search_def enc ids l1 sa)
qed

theorem worker_stops_at_exit_witness:
  "msg_exit toy_exit \<and> \<not> msg_exit toy_message \<and> \<not> msg_exit toy_message2 \<and>
   mapping_lookup_process toy_api unidecode_doc toy_store (\<lambda>r. ''0.100ms'')
     ([toy_message, toy_message2] @ toy_exit # [toy_message]) Map.empty =
     \<lparr>w_ms = \<lparr>artist_data = [1 \<mapsto> toy_entry], db_queries = [7, 1]\<rparr>,
      w_out_d = [5 \<mapsto> (Some [(20, 11, 4 / 5, 5)], ''0.100ms'', 5),
                 6 \<mapsto> (Some [(20, 10, 1, 6), (21, 11, 3 / 5, 6)], ''0.100ms'', 6)],
      w_status = Stopped,
      w_trace = [Received toy_message, Wrote 5, Received toy_message2, Wrote 6, Received toy_exit]\<rparr> \<and>
   served toy_api unidecode_doc toy_store MappingLookupSearch_init [toy_message, toy_message2] =
     [(toy_message, Some [(20, 11, 4 / 5, 5)]), (toy_message2, Some [(20, 10, 1, 6), (21, 11, 3 / 5, 6)])]"
proof -
  have e: "msg_exit toy_exit" by (simp add: toy_exit_def)
  have m: "\<not> msg_exit toy_message" "\<not> msg_exit toy_message2"
    by (simp_all add: toy_message_def toy_message2_def)
  then have pre: "\<forall>m\<in>set [toy_message, toy_message2]. \<not> msg_exit m" by simp
  have r: "msg_req toy_message = toy_request" "msg_req toy_message2 = toy_request2"
    "req_id toy_request = 5" "req_id toy_request2 = 6"
    by (simp_all add: toy_message_def toy_message2_def toy_request_def toy_request2_def)
  have run: "mapping_lookup_process toy_api unidecode_doc toy_store (\<lambda>r. ''0.100ms'')
       [toy_message, toy_message2] Map.empty =
     \<lparr>w_ms = \<lparr>artist_data = [1 \<mapsto> toy_entry], db_queries = [7, 1]\<rparr>,
      w_out_d = [5 \<mapsto> (Some [(20, 11, 4 / 5, 5)], ''0.100ms'', 5),
                 6 \<mapsto> (Some [(20, 10, 1, 6), (21, 11, 3 / 5, 6)], ''0.100ms'', 6)],
      w_status = Ready,
      w_trace = [Received toy_message, Wrote 5, Received toy_message2, Wrote 6]\<rparr>"
    by (simp add: mapping_lookup_process_def m r toy_search toy_search2)
  have sv: "served toy_api unidecode_doc toy_store MappingLookupSearch_init [toy_message, toy_message2] =
     [(toy_message, Some [(20, 11, 4 / 5, 5)]), (toy_message2, Some [(20, 10, 1, 6), (21, 11, 3 / 5, 6)])]"
    by (simp add: m r toy_search toy_search2)
  from worker_stops_at_exit [OF e pre, of toy_api unidecode_doc toy_store "\<lambda>r. ''0.100ms''"
      "[toy_message]" Map.empty]
  show ?thesis using e m sv by (simp add: run halt_def)
qed

end
